theory Spec2Isabelle
  imports Main "HOL-Library.Char_ord" "HOL-Library.List_Lexorder"
    "HOL-Library.Option_ord" "HOL-Library.Product_Lexorder"
begin

section \<open>Data model\<close>

text \<open>
  The planner of \<^verbatim>\<open>src/poetry/puzzle/transaction.py\<close> works on packages, result
  entries (a package with an integer priority) and operations. Names are strings
  (Python compares \<^verbatim>\<open>str\<close> lexicographically by code point, which is the order of
  \<open>List_Lexorder\<close> over \<open>Char_ord\<close>); versions are any linearly ordered type \<open>'v\<close>.
\<close>

datatype dependency = Dependency (dependency_name: string)

text \<open>
  Modelled from the spec: the \<^verbatim>\<open>Package\<close> class is imported from poetry.core and is not
  among the sources. The record holds the attributes the planner reads: \<^verbatim>\<open>name\<close>,
  \<^verbatim>\<open>version\<close>, \<^verbatim>\<open>source_type\<close> (\<open>None\<close> when absent), \<^verbatim>\<open>optional\<close> and
  \<^verbatim>\<open>extras\<close> (field \<open>package_extras\<close>: extra name to its list of dependencies).
\<close>

record 'v package =
  name :: string
  version :: 'v
  source_type :: "string option"
  optional :: bool
  package_extras :: "(string \<times> dependency list) list"

text \<open>
  Modelled from the spec: the operation classes \<^verbatim>\<open>Install\<close>, \<^verbatim>\<open>Update\<close> and
  \<^verbatim>\<open>Uninstall\<close> are imported from poetry.installation.operations and are not among the
  sources. Each carries its package(s), a priority and an optional skip reason. A
  priority is the integer of a result entry or a default of the class; the type has
  an infinite value besides the integers, so that no default is excluded.
\<close>

datatype priority = Finite int | Infinity

datatype 'v operation =
    Install "'v package" priority "string option"
  | Update "'v package" "'v package" priority "string option"
  | Uninstall "'v package" priority "string option"

text \<open>\<^verbatim>\<open>o.package\<close>: the subject of an operation, the target package for an update.\<close>

fun operation_package :: "'v operation \<Rightarrow> 'v package" where
  "operation_package (Install p pr r) = p"
| "operation_package (Update p0 p pr r) = p"
| "operation_package (Uninstall p pr r) = p"

text \<open>\<^verbatim>\<open>o.priority\<close>.\<close>

fun operation_priority :: "'v operation \<Rightarrow> priority" where
  "operation_priority (Install p pr r) = pr"
| "operation_priority (Update p0 p pr r) = pr"
| "operation_priority (Uninstall p pr r) = pr"

text \<open>\<^verbatim>\<open>o.skip(reason)\<close> marks the operation as skipped and returns it.\<close>

fun skip :: "string \<Rightarrow> 'v operation \<Rightarrow> 'v operation" where
  "skip reason (Install p pr r) = Install p pr (Some reason)"
| "skip reason (Update p0 p pr r) = Update p0 p pr (Some reason)"
| "skip reason (Uninstall p pr r) = Uninstall p pr (Some reason)"

fun is_Install :: "'v operation \<Rightarrow> bool" where
  "is_Install (Install p pr r) = True"
| "is_Install (Update p0 p pr r) = False"
| "is_Install (Uninstall p pr r) = False"

fun is_Update :: "'v operation \<Rightarrow> bool" where
  "is_Update (Install p pr r) = False"
| "is_Update (Update p0 p pr r) = True"
| "is_Update (Uninstall p pr r) = False"

fun is_Uninstall :: "'v operation \<Rightarrow> bool" where
  "is_Uninstall (Install p pr r) = False"
| "is_Uninstall (Update p0 p pr r) = False"
| "is_Uninstall (Uninstall p pr r) = True"

text \<open>
  What \<^verbatim>\<open>transaction.py\<close> imports and calls but does not define, taken as parameters:
  the method \<^verbatim>\<open>Package.is_same_package_as\<close>, the function
  \<^verbatim>\<open>get_extra_package_names(packages, extras, extra_names)\<close> of poetry.utils.extras,
  the priority an \<^verbatim>\<open>Install\<close> gets when the call passes none, and the priority of an
  \<^verbatim>\<open>Uninstall\<close> (the planner never passes one).
\<close>

record 'v collaborators =
  is_same_package_as :: "'v package \<Rightarrow> 'v package \<Rightarrow> bool"
  get_extra_package_names ::
    "'v package list \<Rightarrow> (string \<times> string list) list \<Rightarrow> string set \<Rightarrow> string set"
  default_priority :: priority
  uninstall_priority :: priority

datatype error = AssertionError

section \<open>Transaction\<close>

record 'v transaction =
  current_packages :: "'v package list"
  result_packages :: "('v package \<times> int) list"
  installed_packages :: "'v package list"
  root_package :: "'v package option"

text \<open>\<^verbatim>\<open>Transaction.__init__\<close>: an absent list of installed packages is the empty list.\<close>

definition Transaction ::
  "'v package list \<Rightarrow> ('v package \<times> int) list \<Rightarrow> 'v package list option \<Rightarrow>
   'v package option \<Rightarrow> 'v transaction" where
  "Transaction current result installed root =
     \<lparr> current_packages = current,
       result_packages = result,
       installed_packages = (case installed of None \<Rightarrow> [] | Some ps \<Rightarrow> ps),
       root_package = root \<rparr>"

text \<open>The two locals the method mutates: the set \<^verbatim>\<open>uninstalls\<close> and the list \<^verbatim>\<open>operations\<close>.\<close>

record 'v planner_state =
  uninstalls :: "string set"
  operations :: "'v operation list"

definition emit :: "'v operation \<Rightarrow> 'v planner_state \<Rightarrow> 'v planner_state" where
  "emit op s = s\<lparr>operations := operations s @ [op]\<rparr>"

definition emit_uninstall ::
  "'v collaborators \<Rightarrow> 'v package \<Rightarrow> 'v planner_state \<Rightarrow> 'v planner_state" where
  "emit_uninstall cs ip s =
     emit (Uninstall ip (uninstall_priority cs) None) (s\<lparr>uninstalls := insert (name ip) (uninstalls s)\<rparr>)"

text \<open>Python truthiness of \<^verbatim>\<open>source_type\<close>: \<^verbatim>\<open>None\<close> and the empty string are false.\<close>

definition truthy :: "string option \<Rightarrow> bool" where
  "truthy st = (case st of None \<Rightarrow> False | Some t \<Rightarrow> t \<noteq> [])"

text \<open>Lines 46-53: the closure of the requested extras, with the assertion on the root.\<close>

definition extra_package_names ::
  "'v collaborators \<Rightarrow> 'v transaction \<Rightarrow> string set option \<Rightarrow> error + string set" where
  "extra_package_names cs self extras =
     (case extras of
        None \<Rightarrow> Inr {}
      | Some requested \<Rightarrow>
          (case root_package self of
             None \<Rightarrow> Inl AssertionError
           | Some root \<Rightarrow>
               Inr (get_extra_package_names cs
                      (map fst (result_packages self))
                      (map (\<lambda>(k, v). (k, map dependency_name v)) (package_extras root))
                      requested)))"

definition is_unsolicited_extra ::
  "string set option \<Rightarrow> string set \<Rightarrow> 'v package \<Rightarrow> bool" where
  "is_unsolicited_extra extras extra_packages result_package =
     (extras \<noteq> None \<and> (optional result_package \<and> name result_package \<notin> extra_packages))"

text \<open>Lines 73-88: the condition under which an installed match is updated.\<close>

definition update_required ::
  "'v collaborators \<Rightarrow> 'v package \<Rightarrow> 'v package \<Rightarrow> bool" where
  "update_required cs result_package installed_package =
     (version result_package \<noteq> version installed_package \<or>
      ((truthy (source_type installed_package) \<or> source_type result_package \<noteq> Some ''legacy'')
       \<and> \<not> is_same_package_as cs result_package installed_package))"

text \<open>
  Lines 62-97: the loop over the installed packages for one result entry, left at the
  first package of the same name. It returns the flag \<^verbatim>\<open>installed\<close> and the state.
\<close>

fun scan_installed ::
  "'v collaborators \<Rightarrow> bool \<Rightarrow> 'v package \<Rightarrow> int \<Rightarrow> 'v package list \<Rightarrow>
   'v planner_state \<Rightarrow> bool \<times> 'v planner_state" where
  "scan_installed cs unsolicited rp pr [] s = (False, s)"
| "scan_installed cs unsolicited rp pr (ip # ips) s =
     (if name rp = name ip then
        (True,
         if unsolicited then emit_uninstall cs ip s
         else if update_required cs rp ip then emit (Update ip rp (Finite pr) None) s
         else emit (skip ''Already installed'' (Install rp (default_priority cs) None)) s)
      else scan_installed cs unsolicited rp pr ips s)"

text \<open>Lines 56-106: the body of the loop over the result entries.\<close>

definition classify ::
  "'v collaborators \<Rightarrow> 'v transaction \<Rightarrow> bool \<Rightarrow> string set option \<Rightarrow> string set \<Rightarrow>
   'v package \<times> int \<Rightarrow> 'v planner_state \<Rightarrow> 'v planner_state" where
  "classify cs self skip_directory extras extra_packages entry s =
     (case entry of (result_package, pr) \<Rightarrow>
        let unsolicited = is_unsolicited_extra extras extra_packages result_package;
            (installed, s') =
               scan_installed cs unsolicited result_package pr (installed_packages self) s
        in if \<not> (installed \<or> (skip_directory \<and> source_type result_package = Some ''directory''))
           then emit (if unsolicited
                      then skip ''Not required'' (Install result_package (Finite pr) None)
                      else Install result_package (Finite pr) None) s'
           else s')"

text \<open>Lines 116-119: every installed package named as the dropped one is uninstalled.\<close>

fun uninstall_named ::
  "'v collaborators \<Rightarrow> string \<Rightarrow> 'v package list \<Rightarrow> 'v planner_state \<Rightarrow> 'v planner_state" where
  "uninstall_named cs n [] s = s"
| "uninstall_named cs n (ip # ips) s =
     uninstall_named cs n ips (if name ip = n then emit_uninstall cs ip s else s)"

text \<open>Lines 109-119: the body of the loop over the current packages.\<close>

definition sweep_current ::
  "'v collaborators \<Rightarrow> 'v transaction \<Rightarrow> 'v package \<Rightarrow> 'v planner_state \<Rightarrow> 'v planner_state" where
  "sweep_current cs self current_package s =
     (let found = list_ex (\<lambda>(result_package, _). name current_package = name result_package)
                    (result_packages self)
      in if \<not> found then uninstall_named cs (name current_package) (installed_packages self) s
         else s)"

text \<open>Lines 129-144: the body of the loop of the synchronize sweep.\<close>

definition sweep_installed ::
  "'v collaborators \<Rightarrow> 'v transaction \<Rightarrow> string set \<Rightarrow> string set \<Rightarrow> 'v package \<Rightarrow>
   'v planner_state \<Rightarrow> 'v planner_state" where
  "sweep_installed cs self result_package_names preserved_package_names installed_package s =
     (if name installed_package \<in> uninstalls s then s
      else if (case root_package self of
                 None \<Rightarrow> False
               | Some root \<Rightarrow> name installed_package = name root) then s
      else if name installed_package \<in> preserved_package_names then s
      else if name installed_package \<notin> result_package_names
           then emit_uninstall cs installed_package s
      else s)"

definition classification ::
  "'v collaborators \<Rightarrow> 'v transaction \<Rightarrow> bool \<Rightarrow> string set option \<Rightarrow> string set \<Rightarrow>
   'v planner_state" where
  "classification cs self skip_directory extras extra_packages =
     fold (classify cs self skip_directory extras extra_packages) (result_packages self)
       \<lparr> uninstalls = {}, operations = [] \<rparr>"

definition removal_sweep ::
  "'v collaborators \<Rightarrow> 'v transaction \<Rightarrow> 'v planner_state \<Rightarrow> 'v planner_state" where
  "removal_sweep cs self s = fold (sweep_current cs self) (current_packages self) s"

definition synchronize_sweep ::
  "'v collaborators \<Rightarrow> 'v transaction \<Rightarrow> 'v planner_state \<Rightarrow> 'v planner_state" where
  "synchronize_sweep cs self s =
     (let result_package_names = set (map (\<lambda>(result_package, _). name result_package)
                                       (result_packages self));
          preserved_package_names = {''pip''} - result_package_names
      in fold (sweep_installed cs self result_package_names preserved_package_names)
           (installed_packages self) s)"

text \<open>
  Lines 146-153: the sort key \<^verbatim>\<open>(-o.priority, o.package.name, o.package.version)\<close>.
  The negated priority is an \<open>int option\<close> in the order of \<open>Option_ord\<close>, where \<open>None\<close>
  (minus infinity) is below every \<open>Some\<close>.
\<close>

fun negated :: "priority \<Rightarrow> int option" where
  "negated (Finite p) = Some (- p)"
| "negated Infinity = None"

definition sort_key_of :: "'v operation \<Rightarrow> int option \<times> string \<times> 'v" where
  "sort_key_of op = (negated (operation_priority op), name (operation_package op),
      version (operation_package op))"

text \<open>
  \<^verbatim>\<open>Transaction.calculate_operations\<close>. Python's \<^verbatim>\<open>sorted\<close> is stable, as \<open>sort_key\<close> is.
\<close>

definition calculate_operations ::
  "('v::linorder) collaborators \<Rightarrow> 'v transaction \<Rightarrow> bool \<Rightarrow> bool \<Rightarrow> bool \<Rightarrow>
   string set option \<Rightarrow> error + 'v operation list" where
  "calculate_operations cs self with_uninstalls synchronize skip_directory extras =
     (case extra_package_names cs self extras of
        Inl e \<Rightarrow> Inl e
      | Inr extra_packages \<Rightarrow>
          let s1 = classification cs self skip_directory extras extra_packages;
              s2 = (if with_uninstalls
                    then let s = removal_sweep cs self s1
                         in if synchronize then synchronize_sweep cs self s else s
                    else s1)
          in Inr (sort_key sort_key_of (operations s2)))"

section \<open>Descriptions used in the statements and proofs\<close>

text \<open>
  The installed package the loop of lines 62-97 stops at for a result package: the
  first one of the same name (the only one when the installed names are unique).
\<close>

definition installed_match :: "'v transaction \<Rightarrow> 'v package \<Rightarrow> 'v package option" where
  "installed_match self rp = find (\<lambda>ip. name rp = name ip) (installed_packages self)"

definition result_names :: "'v transaction \<Rightarrow> string set" where
  "result_names self = set (map (\<lambda>(rp, _). name rp) (result_packages self))"

text \<open>The operations one result entry appends (proved below, \<open>operations_classify\<close>).\<close>

definition classified ::
  "'v collaborators \<Rightarrow> 'v transaction \<Rightarrow> bool \<Rightarrow> string set option \<Rightarrow> string set \<Rightarrow>
   'v package \<times> int \<Rightarrow> 'v operation list" where
  "classified cs self skip_directory extras extra_packages entry =
     (case entry of (rp, pr) \<Rightarrow>
        (case installed_match self rp of
           Some ip \<Rightarrow>
             [if is_unsolicited_extra extras extra_packages rp
              then Uninstall ip (uninstall_priority cs) None
              else if update_required cs rp ip then Update ip rp (Finite pr) None
              else Install rp (default_priority cs) (Some ''Already installed'')]
         | None \<Rightarrow>
             if skip_directory \<and> source_type rp = Some ''directory'' then []
             else [Install rp (Finite pr)
                     (if is_unsolicited_extra extras extra_packages rp
                      then Some ''Not required'' else None)]))"

text \<open>The operations one current package appends (\<open>operations_sweep_current\<close>).\<close>

definition dropped ::
  "'v collaborators \<Rightarrow> 'v transaction \<Rightarrow> 'v package \<Rightarrow> 'v operation list" where
  "dropped cs self cp =
     (if list_ex (\<lambda>(rp, _). name cp = name rp) (result_packages self) then []
      else map (\<lambda>ip. Uninstall ip (uninstall_priority cs) None)
             (filter (\<lambda>ip. name ip = name cp) (installed_packages self)))"

text \<open>What the synchronize sweep may append.\<close>

definition sync_emitted :: "'v collaborators \<Rightarrow> 'v transaction \<Rightarrow> 'v operation \<Rightarrow> bool" where
  "sync_emitted cs self op =
     (\<exists>ip. ip \<in> set (installed_packages self) \<and>
           op = Uninstall ip (uninstall_priority cs) None \<and>
           name ip \<notin> result_names self \<and> name ip \<noteq> ''pip'' \<and>
           (case root_package self of None \<Rightarrow> True | Some root \<Rightarrow> name ip \<noteq> name root))"

text \<open>
  The order of the output in words: a greater priority first (infinity above every
  integer), then the smaller name, then the smaller version.
\<close>

fun priority_less :: "priority \<Rightarrow> priority \<Rightarrow> bool" where
  "priority_less (Finite a) (Finite b) = (a < b)"
| "priority_less (Finite a) Infinity = True"
| "priority_less Infinity q = False"

definition in_order :: "('v::linorder) operation \<Rightarrow> 'v operation \<Rightarrow> bool" where
  "in_order a b =
     (priority_less (operation_priority b) (operation_priority a) \<or>
      (operation_priority a = operation_priority b \<and>
       (name (operation_package a) < name (operation_package b) \<or>
        (name (operation_package a) = name (operation_package b) \<and>
         version (operation_package a) \<le> version (operation_package b)))))"

section \<open>Concrete inputs\<close>

text \<open>
  Packages with versions as lists of release numbers, and a stand-in for the
  collaborators: two packages are the same when name and source type agree, the
  extras resolver returns the result packages listed under a requested extra, an
  install has priority 0 by default and an uninstall priority infinity.
\<close>

definition pkg :: "string \<Rightarrow> nat list \<Rightarrow> nat list package" where
  "pkg n v = \<lparr> name = n, version = v, source_type = None, optional = False,
               package_extras = [] \<rparr>"

definition listed_extras ::
  "nat list package list \<Rightarrow> (string \<times> string list) list \<Rightarrow> string set \<Rightarrow> string set" where
  "listed_extras packages extras extra_names =
     \<Union> (set (map (\<lambda>(k, ns). if k \<in> extra_names then set ns \<inter> set (map name packages) else {})
               extras))"

definition demo :: "nat list collaborators" where
  "demo = \<lparr> is_same_package_as = (\<lambda>a b. name a = name b \<and> source_type a = source_type b),
            get_extra_package_names = listed_extras,
            default_priority = Finite 0,
            uninstall_priority = Infinity \<rparr>"

section \<open>What each phase appends\<close>

lemmas planner_defs =
  calculate_operations_def extra_package_names_def classification_def classify_def
  is_unsolicited_extra_def update_required_def truthy_def removal_sweep_def sweep_current_def
  synchronize_sweep_def sweep_installed_def sort_key_of_def emit_def emit_uninstall_def
  Transaction_def demo_def pkg_def listed_extras_def

lemma operations_emit: "operations (emit op s) = operations s @ [op]"
  by (simp add: emit_def)

lemma scan_installed_find:
  "scan_installed cs u rp pr ips s =
     (case find (\<lambda>ip. name rp = name ip) ips of
        None \<Rightarrow> (False, s)
      | Some ip \<Rightarrow>
          (True,
           if u then emit_uninstall cs ip s
           else if update_required cs rp ip then emit (Update ip rp (Finite pr) None) s
           else emit (Install rp (default_priority cs) (Some ''Already installed'')) s))"
  by (induction ips) simp_all

lemma operations_emit_uninstall:
  "operations (emit_uninstall cs ip s) = operations s @ [Uninstall ip (uninstall_priority cs) None]"
  by (simp add: emit_uninstall_def emit_def)

lemma operations_classify:
  "operations (classify cs self sd extras ep entry s) =
     operations s @ classified cs self sd extras ep entry"
  by (cases entry)
     (simp add: classify_def classified_def installed_match_def scan_installed_find operations_emit
        operations_emit_uninstall split: option.splits)

lemma operations_fold_classify:
  "operations (fold (classify cs self sd extras ep) es s) =
     operations s @ concat (map (classified cs self sd extras ep) es)"
  by (induction es arbitrary: s) (simp_all add: operations_classify)

lemma operations_classification:
  "operations (classification cs self sd extras ep) =
     concat (map (classified cs self sd extras ep) (result_packages self))"
  by (simp add: classification_def operations_fold_classify)

lemma operations_uninstall_named:
  "operations (uninstall_named cs n ips s) =
     operations s @ map (\<lambda>ip. Uninstall ip (uninstall_priority cs) None)
                      (filter (\<lambda>ip. name ip = n) ips)"
  by (induction ips arbitrary: s) (simp_all add: operations_emit_uninstall)

lemma operations_sweep_current:
  "operations (sweep_current cs self cp s) = operations s @ dropped cs self cp"
  by (simp add: sweep_current_def dropped_def operations_uninstall_named)

lemma operations_fold_sweep_current:
  "operations (fold (sweep_current cs self) cps s) =
     operations s @ concat (map (dropped cs self) cps)"
  by (induction cps arbitrary: s) (simp_all add: operations_sweep_current)

lemma operations_removal_sweep:
  "operations (removal_sweep cs self s) =
     operations s @ concat (map (dropped cs self) (current_packages self))"
  by (simp add: removal_sweep_def operations_fold_sweep_current)

lemma operations_fold_sweep_installed:
  assumes "set ips \<subseteq> set (installed_packages self)"
  shows "\<exists>new. operations (fold (sweep_installed cs self (result_names self)
                   ({''pip''} - result_names self)) ips s) = operations s @ new \<and>
               list_all (sync_emitted cs self) new"
  using assms
proof (induction ips arbitrary: s)
  case Nil
  then show ?case by simp
next
  case (Cons ip ips)
  let ?step = "sweep_installed cs self (result_names self) ({''pip''} - result_names self) ip s"
  have step: "\<exists>one. operations ?step = operations s @ one \<and> list_all (sync_emitted cs self) one"
  proof (cases "?step = s")
    case True
    then show ?thesis by simp
  next
    case False
    then have e: "?step = emit_uninstall cs ip s"
      and c: "name ip \<notin> result_names self" "name ip \<noteq> ''pip''"
        "(case root_package self of None \<Rightarrow> True | Some root \<Rightarrow> name ip \<noteq> name root)"
      by (auto simp: sweep_installed_def split: if_splits option.splits)
    have "ip \<in> set (installed_packages self)" using Cons.prems by simp
    with c have "sync_emitted cs self (Uninstall ip (uninstall_priority cs) None)"
      by (auto simp: sync_emitted_def)
    with e show ?thesis by (simp add: operations_emit_uninstall)
  qed
  then obtain one where one: "operations ?step = operations s @ one"
    "list_all (sync_emitted cs self) one" by blast
  from Cons.prems have "set ips \<subseteq> set (installed_packages self)" by simp
  from Cons.IH[OF this, of ?step] obtain new where
    new: "operations (fold (sweep_installed cs self (result_names self)
            ({''pip''} - result_names self)) ips ?step) = operations ?step @ new"
      "list_all (sync_emitted cs self) new" by blast
  from one new show ?case by auto
qed

lemma operations_synchronize_sweep:
  "\<exists>new. operations (synchronize_sweep cs self s) = operations s @ new \<and>
         list_all (sync_emitted cs self) new"
  using operations_fold_sweep_installed[of "installed_packages self" self cs s]
  by (simp add: synchronize_sweep_def result_names_def)

lemma calculate_operations_accumulated:
  assumes "extra_package_names cs self extras = Inr ep"
  shows "\<exists>sync. calculate_operations cs self wu sy sd extras =
           Inr (sort_key sort_key_of
                 (concat (map (classified cs self sd extras ep) (result_packages self)) @
                  (if wu then concat (map (dropped cs self) (current_packages self)) else []) @
                  sync)) \<and>
           list_all (sync_emitted cs self) sync \<and> (wu \<and> sy \<or> sync = [])"
proof (cases "wu \<and> sy")
  case True
  obtain new where
    "operations (synchronize_sweep cs self
        (removal_sweep cs self (classification cs self sd extras ep))) =
       operations (removal_sweep cs self (classification cs self sd extras ep)) @ new"
    "list_all (sync_emitted cs self) new"
    using operations_synchronize_sweep by blast
  with True assms show ?thesis
    by (intro exI[of _ new])
       (simp add: calculate_operations_def operations_removal_sweep operations_classification)
next
  case False
  with assms show ?thesis
    by (intro exI[of _ "[]"])
       (simp add: calculate_operations_def operations_removal_sweep operations_classification)
qed

lemma calculate_operations_Inr:
  assumes "calculate_operations cs self wu sy sd extras = Inr ops"
  shows "\<exists>ep. extra_package_names cs self extras = Inr ep"
  using assms by (cases "extra_package_names cs self extras") (simp_all add: calculate_operations_def)

lemma classified_cases:
  assumes "op \<in> set (classified cs self sd extras ep (rp, pr))"
  shows "name (operation_package op) = name rp \<and>
         (is_Uninstall op \<longrightarrow> is_unsolicited_extra extras ep rp) \<and>
         (is_Update op \<longrightarrow> \<not> is_unsolicited_extra extras ep rp \<and>
            (\<exists>ip. installed_match self rp = Some ip \<and> update_required cs rp ip \<and>
                  op = Update ip rp (Finite pr) None))"
  using assms
  by (auto simp: classified_def installed_match_def split: option.splits if_splits
        dest: find_Some_iff[THEN iffD1])

lemma dropped_cases:
  assumes "op \<in> set (dropped cs self cp)"
  shows "is_Uninstall op \<and> name (operation_package op) = name cp \<and>
         name cp \<notin> result_names self"
  using assms
  by (auto simp: dropped_def result_names_def list_ex_iff split: if_splits)

lemma sync_emitted_cases:
  assumes "sync_emitted cs self op"
  shows "is_Uninstall op \<and> name (operation_package op) \<notin> result_names self \<and>
         name (operation_package op) \<noteq> ''pip'' \<and>
         (\<forall>root. root_package self = Some root \<longrightarrow> name (operation_package op) \<noteq> name root)"
  using assms by (auto simp: sync_emitted_def)

lemma result_names_member:
  "(rp, pr) \<in> set (result_packages self) \<Longrightarrow> name rp \<in> result_names self"
  by (force simp: result_names_def)

lemma uninstall_origin:
  assumes calc: "calculate_operations cs self wu sy sd extras = Inr ops"
    and mem: "op \<in> set ops" and un: "is_Uninstall op"
  shows "(extras \<noteq> None \<and> name (operation_package op) \<in> result_names self) \<or>
         (wu \<and> name (operation_package op) \<in> name ` set (current_packages self) \<and>
            name (operation_package op) \<notin> result_names self) \<or>
         (wu \<and> sy \<and> name (operation_package op) \<notin> result_names self \<and>
            name (operation_package op) \<noteq> ''pip'' \<and>
            (\<forall>root. root_package self = Some root \<longrightarrow> name (operation_package op) \<noteq> name root))"
proof -
  from calculate_operations_Inr[OF calc] obtain ep where
    ep: "extra_package_names cs self extras = Inr ep" ..
  from calculate_operations_accumulated[OF ep, of wu sy sd] calc obtain sync where
    ops: "ops = sort_key sort_key_of
                 (concat (map (classified cs self sd extras ep) (result_packages self)) @
                  (if wu then concat (map (dropped cs self) (current_packages self)) else []) @
                  sync)"
    and sync: "list_all (sync_emitted cs self) sync" "wu \<and> sy \<or> sync = []"
    by auto
  from mem ops consider
    (B) rp pr where "(rp, pr) \<in> set (result_packages self)"
        "op \<in> set (classified cs self sd extras ep (rp, pr))"
  | (C) cp where "wu" "cp \<in> set (current_packages self)" "op \<in> set (dropped cs self cp)"
  | (D) "op \<in> set sync"
    by (auto split: if_splits)
  then show ?thesis
  proof cases
    case B
    from classified_cases[OF B(2)] un result_names_member[OF B(1)]
    show ?thesis by (auto simp: is_unsolicited_extra_def)
  next
    case C
    from dropped_cases[OF C(3)] C(1,2) show ?thesis by auto
  next
    case D
    with sync have "sync_emitted cs self op" "wu \<and> sy"
      by (auto simp: list_all_iff)
    with sync_emitted_cases[of cs self op] show ?thesis by blast
  qed
qed

lemma negated_less: "negated p < negated q \<longleftrightarrow> priority_less q p"
  by (cases p; cases q) simp_all

lemma negated_eq: "negated p = negated q \<longleftrightarrow> p = q"
  by (cases p; cases q) simp_all

lemma sort_key_of_le: "sort_key_of a \<le> sort_key_of b \<longleftrightarrow> in_order a b"
  unfolding sort_key_of_def in_order_def less_eq_prod_simp less_le[of "negated _"]
    less_le[of "name _"] negated_eq
  using negated_less[of "operation_priority a" "operation_priority b"]
  by (auto simp: less_le negated_eq)

section \<open>Operations by package name\<close>

lemma filter_classified_entry:
  "filter (\<lambda>op. name (operation_package op) = n) (classified cs self sd extras ep (rp, pr)) =
     (if name rp = n then classified cs self sd extras ep (rp, pr) else [])"
  using classified_cases[of _ cs self sd extras ep rp pr]
  by (auto simp: filter_empty_conv filter_id_conv)

lemma filter_classified_absent:
  assumes "n \<notin> set (map (\<lambda>(rp, _). name rp) es)"
  shows "filter (\<lambda>op. name (operation_package op) = n)
           (concat (map (classified cs self sd extras ep) es)) = []"
  using assms
proof (induction es)
  case Nil
  then show ?case by simp
next
  case (Cons e es)
  obtain rp pr where e: "e = (rp, pr)" by (cases e)
  with Cons show ?case by (auto simp: filter_classified_entry)
qed

lemma filter_classified_unique:
  assumes "distinct (map (\<lambda>(rp, _). name rp) es)" and "(rp, pr) \<in> set es"
  shows "filter (\<lambda>op. name (operation_package op) = name rp)
           (concat (map (classified cs self sd extras ep) es)) =
         classified cs self sd extras ep (rp, pr)"
  using assms
proof (induction es)
  case Nil
  then show ?case by simp
next
  case (Cons e es)
  obtain rp' pr' where e: "e = (rp', pr')" by (cases e)
  show ?case
  proof (cases "e = (rp, pr)")
    case True
    with Cons.prems have "name rp \<notin> set (map (\<lambda>(rp, _). name rp) es)" by simp
    from filter_classified_absent[OF this] True show ?thesis
      by (simp add: filter_classified_entry)
  next
    case False
    with Cons.prems have mem: "(rp, pr) \<in> set es" by simp
    then have "name rp \<in> set (map (\<lambda>(rp, _). name rp) es)" by force
    with Cons.prems e have "name rp' \<noteq> name rp" by auto
    moreover from Cons.prems have "distinct (map (\<lambda>(rp, _). name rp) es)" by simp
    ultimately show ?thesis using Cons.IH mem e by (simp add: filter_classified_entry)
  qed
qed

lemma filter_dropped:
  assumes "n \<in> result_names self"
  shows "filter (\<lambda>op. name (operation_package op) = n)
           (concat (map (dropped cs self) cps)) = []"
  using assms dropped_cases[of _ cs self]
  by (auto simp: filter_empty_conv)

lemma filter_sync_emitted:
  assumes "n \<in> result_names self" and "list_all (sync_emitted cs self) sync"
  shows "filter (\<lambda>op. name (operation_package op) = n) sync = []"
  using assms sync_emitted_cases[of cs self]
  by (auto simp: filter_empty_conv list_all_iff)

lemma operations_named:
  assumes ep: "extra_package_names cs self extras = Inr ep"
    and dist: "distinct (map (\<lambda>(rp, _). name rp) (result_packages self))"
    and mem: "(rp, pr) \<in> set (result_packages self)"
  shows "\<exists>ops. calculate_operations cs self wu sy sd extras = Inr ops \<and>
           filter (\<lambda>op. name (operation_package op) = name rp) ops =
             classified cs self sd extras ep (rp, pr)"
proof -
  from calculate_operations_accumulated[OF ep, of wu sy sd] obtain sync where
    calc: "calculate_operations cs self wu sy sd extras =
           Inr (sort_key sort_key_of
                 (concat (map (classified cs self sd extras ep) (result_packages self)) @
                  (if wu then concat (map (dropped cs self) (current_packages self)) else []) @
                  sync))"
    and sync: "list_all (sync_emitted cs self) sync"
    by blast
  have n: "name rp \<in> result_names self" using mem by (rule result_names_member)
  have one: "sort_key sort_key_of (classified cs self sd extras ep (rp, pr)) =
             classified cs self sd extras ep (rp, pr)"
    by (simp add: classified_def split: option.splits)
  show ?thesis
    unfolding calc
    by (simp add: filter_sort filter_classified_unique[OF dist mem] filter_dropped[OF n]
          filter_sync_emitted[OF n sync] one)
qed

lemma operations_member:
  assumes ep: "extra_package_names cs self extras = Inr ep"
    and mem: "(rp, pr) \<in> set (result_packages self)"
  shows "\<exists>ops. calculate_operations cs self wu sy sd extras = Inr ops \<and>
           set (classified cs self sd extras ep (rp, pr)) \<subseteq> set ops"
proof -
  from calculate_operations_accumulated[OF ep, of wu sy sd] obtain sync where
    calc: "calculate_operations cs self wu sy sd extras =
           Inr (sort_key sort_key_of
                 (concat (map (classified cs self sd extras ep) (result_packages self)) @
                  (if wu then concat (map (dropped cs self) (current_packages self)) else []) @
                  sync))"
    by blast
  show ?thesis unfolding calc using mem by auto
qed

lemma classified_names:
  assumes "op \<in> set (operations (classification cs self sd extras ep))"
  shows "name (operation_package op) \<in> result_names self"
proof -
  from assms obtain rp pr where "(rp, pr) \<in> set (result_packages self)"
    "op \<in> set (classified cs self sd extras ep (rp, pr))"
    by (auto simp: operations_classification)
  with classified_cases[of op cs self sd extras ep rp pr] result_names_member[of rp pr self]
  show ?thesis by simp
qed

lemma installed_match_None:
  "installed_match self rp = None \<longleftrightarrow> (\<forall>ip \<in> set (installed_packages self). name ip \<noteq> name rp)"
  by (auto simp: installed_match_def find_None_iff)

lemma installed_match_unique:
  assumes "distinct (map name (installed_packages self))"
    and "ip \<in> set (installed_packages self)" and "name ip = name rp"
  shows "installed_match self rp = Some ip"
proof -
  have "find (\<lambda>x. n = name x) ips = Some ip"
    if "distinct (map name ips)" "ip \<in> set ips" "name ip = n" for ips n
    using that by (induction ips) (auto simp: image_iff)
  from this[OF assms(1,2)] assms(3) show ?thesis by (simp add: installed_match_def)
qed

lemma installed_match_name:
  "installed_match self rp = Some ip \<Longrightarrow> name ip = name rp \<and> ip \<in> set (installed_packages self)"
  by (auto simp: installed_match_def find_Some_iff)

lemma classified_update_source:
  assumes "Update ip rp q r \<in> set (operations (classification cs self sd extras ep))"
  shows "name ip = name rp"
proof -
  from assms obtain rp' pr' where
    "Update ip rp q r \<in> set (classified cs self sd extras ep (rp', pr'))"
    by (auto simp: operations_classification)
  from classified_cases[OF this] show ?thesis
    by (auto dest: installed_match_name)
qed


text \<open>
  An unsolicited extra that is installed is uninstalled before the update condition is
  evaluated, so the outcome on its name is the same whatever \<^verbatim>\<open>is_same_package_as\<close>
  answers.
\<close>

lemma unsolicited_match_uninstalled:
  assumes "extra_package_names cs self extras = Inr ep"
    and "distinct (map (\<lambda>(rp, pr). name rp) (result_packages self))"
    and "(rp, pr) \<in> set (result_packages self)"
    and "is_unsolicited_extra extras ep rp"
    and "installed_match self rp = Some ip"
  shows "\<exists>ops. calculate_operations cs self wu sy sd extras = Inr ops \<and>
           filter (\<lambda>op. name (operation_package op) = name rp) ops =
             [Uninstall ip (uninstall_priority cs) None]"
proof -
  have "classified cs self sd extras ep (rp, pr) = [Uninstall ip (uninstall_priority cs) None]"
    using assms(4,5) by (simp add: classified_def)
  with operations_named[OF assms(1-3), of wu sy sd] show ?thesis by simp
qed

text \<open>
  A comparison of name and source type, as the stand-in makes it, is false of every
  pair of an installed package without source type and a result package of source type
  "legacy": for such a pair only clause (a) of the update condition prevents the update.
\<close>

lemma legacy_pair_not_same:
  assumes "source_type ip = None" and "source_type rp = Some ''legacy''"
  shows "\<not> is_same_package_as demo rp ip"
  using assms by (simp add: demo_def)

section \<open>The claims\<close>

subsection \<open>C1: what protects pip and the root package\<close>

text \<open>
  C1, in the form that holds of the code. The protection of \<^verbatim>\<open>pip\<close> and of the root package is a guard of the
  synchronize sweep (lines 129-144) only. For every uninstall in the output: if its
  package is named pip, then a package named pip is in the result (where it was
  uninstalled as an unsolicited extra), or \<^verbatim>\<open>with_uninstalls\<close> is set and a package
  named pip is in the current list (the removal sweep); and if a root package is given
  and the uninstalled package bears its name, then extras are given and that name is in
  the result, or \<^verbatim>\<open>with_uninstalls\<close> is set and that name is in the current list. This
  holds for every value of \<^verbatim>\<open>synchronize\<close>.
\<close>

theorem C1_uninstall_of_pip_or_root:
  assumes "calculate_operations cs self with_uninstalls synchronize skip_directory extras = Inr ops"
    and "op \<in> set ops" and "is_Uninstall op"
  shows "(name (operation_package op) = ''pip'' \<longrightarrow>
            ''pip'' \<in> result_names self \<or>
            (with_uninstalls \<and> ''pip'' \<in> name ` set (current_packages self))) \<and>
         (\<forall>root. root_package self = Some root \<and> name (operation_package op) = name root \<longrightarrow>
            (extras \<noteq> None \<and> name root \<in> result_names self) \<or>
            (with_uninstalls \<and> name root \<in> name ` set (current_packages self)))"
  using uninstall_origin[OF assms] by auto

text \<open>
  An instance: pip is an optional result package outside the requested extras, so its
  installed copy is uninstalled, while the synchronize sweep leaves the installed root
  package alone.
\<close>

theorem C1_uninstall_of_pip_or_root_witness:
  "calculate_operations demo
     (Transaction [] [((pkg ''pip'' [24, 0])\<lparr>optional := True\<rparr>, 0)]
        (Some [pkg ''pip'' [23, 0], pkg ''app'' [1]]) (Some (pkg ''app'' [1])))
     True True False (Some {}) = Inr [Uninstall (pkg ''pip'' [23, 0]) Infinity None] \<and>
   ''pip'' \<in> result_names
     (Transaction [] [((pkg ''pip'' [24, 0])\<lparr>optional := True\<rparr>, 0)]
        (Some [pkg ''pip'' [23, 0], pkg ''app'' [1]]) (Some (pkg ''app'' [1])))"
proof -
  let ?T = "Transaction [] [((pkg ''pip'' [24, 0])\<lparr>optional := True\<rparr>, 0)]
        (Some [pkg ''pip'' [23, 0], pkg ''app'' [1]]) (Some (pkg ''app'' [1]))"
  let ?u = "Uninstall (pkg ''pip'' [23, 0]) Infinity None"
  have h: "calculate_operations demo ?T True True False (Some {}) = Inr [?u]"
    by (simp add: planner_defs)
  have m: "?u \<in> set [?u]" and u: "is_Uninstall ?u" and n: "name (operation_package ?u) = ''pip''"
    by (simp_all add: pkg_def)
  have c: "\<not> ''pip'' \<in> name ` set (current_packages ?T)"
    by (simp add: Transaction_def)
  from C1_uninstall_of_pip_or_root[OF h m u] n c have "''pip'' \<in> result_names ?T"
    by blast
  with h show ?thesis by simp
qed

text \<open>
  The sentence of the specification fails on three inputs. With synchronize set, pip in the current
  list and not in the result, the removal sweep uninstalls pip. A package of the root's
  name in the current list is uninstalled by the removal sweep. A package of the root's
  name in the result, optional and not requested, is uninstalled during classification.
\<close>

theorem C1_counterexample:
  "calculate_operations demo
     (Transaction [pkg ''pip'' [24, 0]] [] (Some [pkg ''pip'' [24, 0]]) None)
     True True False None = Inr [Uninstall (pkg ''pip'' [24, 0]) Infinity None] \<and>
   calculate_operations demo
     (Transaction [pkg ''app'' [1]] [] (Some [pkg ''app'' [1]]) (Some (pkg ''app'' [1])))
     True False False None = Inr [Uninstall (pkg ''app'' [1]) Infinity None] \<and>
   calculate_operations demo
     (Transaction [] [((pkg ''app'' [1])\<lparr>optional := True\<rparr>, 0)] (Some [pkg ''app'' [1]])
        (Some (pkg ''app'' [1])))
     False False False (Some {}) = Inr [Uninstall (pkg ''app'' [1]) Infinity None]"
  by (simp add: planner_defs)

subsection \<open>C2: nothing to do\<close>

text \<open>
  C2, in the form that holds of the code. Let no result package be an unsolicited extra (extras are absent, or
  the package is not optional, or it is in the closure of the requested extras), let
  the installed match of every result package have the same version and be the same
  package, and let \<^verbatim>\<open>with_uninstalls\<close> be false. Then the output is the sorted list of
  one install per result entry, each skipped with reason "Already installed"; it holds
  no update and no uninstall.
\<close>

theorem C2_already_installed:
  assumes "extra_package_names cs self extras = Inr extra_packages"
    and "\<forall>(rp, pr) \<in> set (result_packages self). \<not> is_unsolicited_extra extras extra_packages rp"
    and "\<forall>(rp, pr) \<in> set (result_packages self).
           \<exists>ip. installed_match self rp = Some ip \<and> version ip = version rp \<and>
                is_same_package_as cs rp ip"
  shows "\<exists>ops. calculate_operations cs self False synchronize skip_directory extras = Inr ops \<and>
           ops = sort_key sort_key_of
                   (map (\<lambda>(rp, pr). Install rp (default_priority cs) (Some ''Already installed''))
                      (result_packages self)) \<and>
           (\<forall>op \<in> set ops. is_Install op \<and> \<not> is_Update op \<and> \<not> is_Uninstall op \<and>
              (\<exists>rp. op = Install rp (default_priority cs) (Some ''Already installed'')))"
proof -
  have one: "classified cs self skip_directory extras extra_packages e =
             [case e of (rp, pr) \<Rightarrow> Install rp (default_priority cs) (Some ''Already installed'')]"
    if "e \<in> set (result_packages self)" for e
  proof -
    obtain rp pr where e: "e = (rp, pr)" by (cases e)
    from assms(2,3) that e obtain ip where
      "\<not> is_unsolicited_extra extras extra_packages rp"
      "installed_match self rp = Some ip" "version ip = version rp" "is_same_package_as cs rp ip"
      by fastforce
    then show ?thesis by (simp add: e classified_def update_required_def)
  qed
  have "concat (map (classified cs self skip_directory extras extra_packages) es) =
        map (\<lambda>(rp, pr). Install rp (default_priority cs) (Some ''Already installed'')) es"
    if "set es \<subseteq> set (result_packages self)" for es
    using that by (induction es) (simp_all add: one)
  then have acc: "concat (map (classified cs self skip_directory extras extra_packages)
                     (result_packages self)) =
        map (\<lambda>(rp, pr). Install rp (default_priority cs) (Some ''Already installed''))
          (result_packages self)"
    by simp
  from calculate_operations_accumulated[OF assms(1), of False synchronize skip_directory]
  have "calculate_operations cs self False synchronize skip_directory extras =
          Inr (sort_key sort_key_of
                 (map (\<lambda>(rp, pr). Install rp (default_priority cs) (Some ''Already installed''))
                    (result_packages self)))"
    by (auto simp: acc)
  then show ?thesis by auto
qed

text \<open>
  An instance with two result packages installed as resolved, a stale installed package
  and synchronize set: two skipped installs, ordered by name.
\<close>

theorem C2_already_installed_witness:
  "calculate_operations demo
     (Transaction [pkg ''old'' [1]] [(pkg ''b'' [3], 1), (pkg ''a'' [1, 0], 2)]
        (Some [pkg ''b'' [3], pkg ''a'' [1, 0], pkg ''old'' [1]]) None)
     False True False None =
   Inr [Install (pkg ''a'' [1, 0]) (Finite 0) (Some ''Already installed''),
        Install (pkg ''b'' [3]) (Finite 0) (Some ''Already installed'')]"
proof -
  let ?T = "Transaction [pkg ''old'' [1]] [(pkg ''b'' [3], 1), (pkg ''a'' [1, 0], 2)]
        (Some [pkg ''b'' [3], pkg ''a'' [1, 0], pkg ''old'' [1]]) None"
  have h1: "extra_package_names demo ?T None = Inr {}"
    by (simp add: extra_package_names_def)
  have h2: "\<forall>(rp, pr) \<in> set (result_packages ?T). \<not> is_unsolicited_extra None {} rp"
    by (simp add: is_unsolicited_extra_def)
  have h3: "\<forall>(rp, pr) \<in> set (result_packages ?T).
           \<exists>ip. installed_match ?T rp = Some ip \<and> version ip = version rp \<and>
                is_same_package_as demo rp ip"
    by (simp add: Transaction_def installed_match_def pkg_def demo_def)
  from C2_already_installed[OF h1 h2 h3, of True False]
  have "calculate_operations demo ?T False True False None =
          Inr (sort_key sort_key_of
                 (map (\<lambda>(rp, pr). Install rp (default_priority demo) (Some ''Already installed''))
                    (result_packages ?T)))"
    by blast
  then show ?thesis by (simp add: Transaction_def sort_key_of_def pkg_def demo_def)
qed

text \<open>
  The sentence of the specification fails when extras are given: an installed result package that is
  optional and not requested is uninstalled although \<^verbatim>\<open>with_uninstalls\<close> is false and
  its installed match has the same version and is the same package.
\<close>

theorem C2_counterexample:
  "installed_match
     (Transaction [] [((pkg ''docs'' [1])\<lparr>optional := True\<rparr>, 0)]
        (Some [(pkg ''docs'' [1])\<lparr>optional := True\<rparr>]) (Some (pkg ''app'' [1])))
     ((pkg ''docs'' [1])\<lparr>optional := True\<rparr>) = Some ((pkg ''docs'' [1])\<lparr>optional := True\<rparr>) \<and>
   is_same_package_as demo ((pkg ''docs'' [1])\<lparr>optional := True\<rparr>)
     ((pkg ''docs'' [1])\<lparr>optional := True\<rparr>) \<and>
   calculate_operations demo
     (Transaction [] [((pkg ''docs'' [1])\<lparr>optional := True\<rparr>, 0)]
        (Some [(pkg ''docs'' [1])\<lparr>optional := True\<rparr>]) (Some (pkg ''app'' [1])))
     False False False (Some {}) =
   Inr [Uninstall ((pkg ''docs'' [1])\<lparr>optional := True\<rparr>) Infinity None]"
  by (simp add: planner_defs installed_match_def)

subsection \<open>C3: the legacy quirk\<close>




subsection \<open>C4: an update, not a reinstall\<close>

text \<open>
  C4, in the form that holds of the code. Let the result names be unique, and let a result package that is not
  an unsolicited extra have an installed match of a different version. Then the only
  operation of the output on that name is one update from the installed match to the
  result package with the priority of the result entry: no install and no uninstall
  targets the name.
\<close>

theorem C4_update_not_reinstall:
  assumes "extra_package_names cs self extras = Inr extra_packages"
    and "distinct (map (\<lambda>(rp, pr). name rp) (result_packages self))"
    and "(rp, pr) \<in> set (result_packages self)"
    and "installed_match self rp = Some ip"
    and "version ip \<noteq> version rp"
    and "\<not> is_unsolicited_extra extras extra_packages rp"
  shows "\<exists>ops. calculate_operations cs self with_uninstalls synchronize skip_directory extras
                 = Inr ops \<and>
           filter (\<lambda>op. name (operation_package op) = name rp) ops =
             [Update ip rp (Finite pr) None]"
proof -
  have "classified cs self skip_directory extras extra_packages (rp, pr) =
          [Update ip rp (Finite pr) None]"
    using assms(4-6) by (auto simp: classified_def update_required_def)
  with operations_named[OF assms(1-3), of with_uninstalls synchronize skip_directory]
  show ?thesis by simp
qed

text \<open>The first scenario of the specification, with synchronize set.\<close>

theorem C4_update_not_reinstall_witness:
  "calculate_operations demo
     (Transaction [pkg ''a'' [1, 0]] [(pkg ''a'' [2, 0], 4)] (Some [pkg ''a'' [1, 0]]) None)
     True True False None =
   Inr [Update (pkg ''a'' [1, 0]) (pkg ''a'' [2, 0]) (Finite 4) None]"
proof -
  let ?T = "Transaction [pkg ''a'' [1, 0]] [(pkg ''a'' [2, 0], 4)] (Some [pkg ''a'' [1, 0]]) None"
  have h1: "extra_package_names demo ?T None = Inr {}" by (simp add: extra_package_names_def)
  have h2: "distinct (map (\<lambda>(rp, pr). name rp) (result_packages ?T))" by (simp add: Transaction_def)
  have h3: "(pkg ''a'' [2, 0], 4) \<in> set (result_packages ?T)" by (simp add: Transaction_def)
  have h4: "installed_match ?T (pkg ''a'' [2, 0]) = Some (pkg ''a'' [1, 0])"
    by (simp add: installed_match_def Transaction_def pkg_def)
  have h5: "version (pkg ''a'' [1, 0]) \<noteq> version (pkg ''a'' [2, 0])" by (simp add: pkg_def)
  have h6: "\<not> is_unsolicited_extra None {} (pkg ''a'' [2, 0])"
    by (simp add: is_unsolicited_extra_def)
  from C4_update_not_reinstall[OF h1 h2 h3 h4 h5 h6, of True True False]
  obtain ops where calc: "calculate_operations demo ?T True True False None = Inr ops"
    and named: "filter (\<lambda>op. name (operation_package op) = name (pkg ''a'' [2, 0])) ops =
                  [Update (pkg ''a'' [1, 0]) (pkg ''a'' [2, 0]) (Finite 4) None]"
    by blast
  have "calculate_operations demo ?T True True False None =
          Inr [Update (pkg ''a'' [1, 0]) (pkg ''a'' [2, 0]) (Finite 4) None]"
    by (simp add: planner_defs)
  with calc named show ?thesis by simp
qed

text \<open>
  The sentence of the specification fails when extras are given: the installed match of an optional
  result package that was not requested has a different version, and the output is its
  uninstall, with no update.
\<close>

theorem C4_counterexample:
  "installed_match
     (Transaction [] [((pkg ''docs'' [2])\<lparr>optional := True\<rparr>, 0)]
        (Some [pkg ''docs'' [1]]) (Some (pkg ''app'' [1])))
     ((pkg ''docs'' [2])\<lparr>optional := True\<rparr>) = Some (pkg ''docs'' [1]) \<and>
   version (pkg ''docs'' [1]) \<noteq> version ((pkg ''docs'' [2])\<lparr>optional := True\<rparr>) \<and>
   calculate_operations demo
     (Transaction [] [((pkg ''docs'' [2])\<lparr>optional := True\<rparr>, 0)]
        (Some [pkg ''docs'' [1]]) (Some (pkg ''app'' [1])))
     True False False (Some {}) = Inr [Uninstall (pkg ''docs'' [1]) Infinity None]"
  by (simp add: planner_defs installed_match_def)

subsection \<open>C5: optional packages when no extra is requested\<close>

text \<open>
  C5, in the form that holds of the code. Let a root package be given, let \<^verbatim>\<open>extras\<close> be the empty set, and let
  the extras resolver return no name for the empty request. Then for every optional
  result package: if it has an installed match (the installed package of its name), the
  output holds the uninstall of that installed package; if no installed package has its
  name and it is not a directory package left out by \<^verbatim>\<open>skip_directory\<close>, the output
  holds its install with the priority of the entry, skipped with reason "Not required".
\<close>

theorem C5_unsolicited_extras:
  assumes "root_package self = Some root"
    and "get_extra_package_names cs (map fst (result_packages self))
           (map (\<lambda>(k, v). (k, map dependency_name v)) (package_extras root)) {} = {}"
    and "(rp, pr) \<in> set (result_packages self)"
    and "optional rp"
  shows "\<exists>ops. calculate_operations cs self with_uninstalls synchronize skip_directory (Some {})
                 = Inr ops \<and>
           (\<forall>ip. installed_match self rp = Some ip \<longrightarrow>
                 Uninstall ip (uninstall_priority cs) None \<in> set ops) \<and>
           ((\<forall>ip \<in> set (installed_packages self). name ip \<noteq> name rp) \<and>
            \<not> (skip_directory \<and> source_type rp = Some ''directory'') \<longrightarrow>
              Install rp (Finite pr) (Some ''Not required'') \<in> set ops)"
proof -
  have ep: "extra_package_names cs self (Some {}) = Inr {}"
    using assms(1,2) by (simp add: extra_package_names_def)
  have un: "is_unsolicited_extra (Some {}) {} rp"
    using assms(4) by (simp add: is_unsolicited_extra_def)
  from operations_member[OF ep assms(3), of with_uninstalls synchronize skip_directory] un
  show ?thesis by (auto simp: classified_def installed_match_None[symmetric])
qed

text \<open>
  An instance with two optional result packages, one installed and one not, and a root
  package that declares an extra nobody requested.
\<close>

theorem C5_unsolicited_extras_witness:
  "calculate_operations demo
     (Transaction []
        [((pkg ''docs'' [1])\<lparr>optional := True\<rparr>, 3), ((pkg ''lint'' [2])\<lparr>optional := True\<rparr>, 3)]
        (Some [pkg ''docs'' [1]])
        (Some ((pkg ''app'' [1])\<lparr>package_extras := [(''doc'', [Dependency ''docs''])]\<rparr>)))
     True False False (Some {}) =
   Inr [Uninstall (pkg ''docs'' [1]) Infinity None,
        Install ((pkg ''lint'' [2])\<lparr>optional := True\<rparr>) (Finite 3) (Some ''Not required'')] \<and>
   Install ((pkg ''lint'' [2])\<lparr>optional := True\<rparr>) (Finite 3) (Some ''Not required'') \<in>
     set [Uninstall (pkg ''docs'' [1]) Infinity None,
          Install ((pkg ''lint'' [2])\<lparr>optional := True\<rparr>) (Finite 3) (Some ''Not required'')]"
proof -
  let ?root = "(pkg ''app'' [1])\<lparr>package_extras := [(''doc'', [Dependency ''docs''])]\<rparr>"
  let ?lint = "(pkg ''lint'' [2])\<lparr>optional := True\<rparr>"
  let ?T = "Transaction []
        [((pkg ''docs'' [1])\<lparr>optional := True\<rparr>, 3), (?lint, 3)]
        (Some [pkg ''docs'' [1]]) (Some ?root)"
  have h1: "root_package ?T = Some ?root" by (simp add: Transaction_def)
  have h2: "get_extra_package_names demo (map fst (result_packages ?T))
           (map (\<lambda>(k, v). (k, map dependency_name v)) (package_extras ?root)) {} = {}"
    by (simp add: planner_defs)
  have h3: "(?lint, 3) \<in> set (result_packages ?T)" by (simp add: Transaction_def)
  have h4: "optional ?lint" by simp
  have h5: "\<forall>ip \<in> set (installed_packages ?T). name ip \<noteq> name ?lint"
    by (simp add: Transaction_def pkg_def)
  have c: "calculate_operations demo ?T True False False (Some {}) =
     Inr [Uninstall (pkg ''docs'' [1]) Infinity None, Install ?lint (Finite 3) (Some ''Not required'')]"
    by (simp add: planner_defs)
  from C5_unsolicited_extras[OF h1 h2 h3 h4, of True False False] h5
  obtain ops where "calculate_operations demo ?T True False False (Some {}) = Inr ops"
    "Install ?lint (Finite 3) (Some ''Not required'') \<in> set ops"
    by auto
  with c show ?thesis by simp
qed

text \<open>
  The sentence of the specification fails with \<^verbatim>\<open>skip_directory\<close>: an optional directory package
  that is not installed gets no operation at all, so no install skipped with reason
  "Not required" is in the output.
\<close>

theorem C5_counterexample:
  "optional ((pkg ''docs'' [1])\<lparr>optional := True, source_type := Some ''directory''\<rparr>) \<and>
   installed_packages
     (Transaction [] [((pkg ''docs'' [1])\<lparr>optional := True, source_type := Some ''directory''\<rparr>, 0)]
        None (Some (pkg ''app'' [1]))) = [] \<and>
   calculate_operations demo
     (Transaction [] [((pkg ''docs'' [1])\<lparr>optional := True, source_type := Some ''directory''\<rparr>, 0)]
        None (Some (pkg ''app'' [1])))
     True False True (Some {}) = Inr []"
  by (simp add: planner_defs)

subsection \<open>C6: extras without a root package\<close>

text \<open>
  C6. When \<^verbatim>\<open>extras\<close> is given and the transaction has no root package, the call fails
  with the assertion error of line 48, whatever the other arguments are; no operation
  list is returned.
\<close>

theorem C6_extras_without_root_fails:
  assumes "root_package self = None"
  shows "calculate_operations cs self with_uninstalls synchronize skip_directory (Some requested)
           = Inl AssertionError"
  using assms by (simp add: calculate_operations_def extra_package_names_def)

theorem C6_extras_without_root_fails_witness:
  "root_package (Transaction [] [(pkg ''a'' [1, 0], 0)] None None) = None \<and>
   calculate_operations demo (Transaction [] [(pkg ''a'' [1, 0], 0)] None None)
     True False False (Some {}) = Inl AssertionError"
proof -
  have h: "root_package (Transaction [] [(pkg ''a'' [1, 0], 0)] None None) = None"
    by (simp add: Transaction_def)
  from C6_extras_without_root_fails[OF h] h show ?thesis by simp
qed

subsection \<open>C7: the order of the output\<close>

text \<open>
  C7. Every returned list is sorted by priority descending, then by the name of the
  operation's package ascending, then by its version ascending (\<open>in_order\<close>), where
  the package of an update is its target (\<open>operation_package\<close>).
\<close>

theorem C7_output_sorted:
  assumes "calculate_operations cs self with_uninstalls synchronize skip_directory extras = Inr ops"
  shows "sorted_wrt in_order ops"
proof -
  from assms obtain acc where "ops = sort_key sort_key_of acc"
    by (auto simp: calculate_operations_def Let_def split: sum.splits)
  then have "sorted (map sort_key_of ops)" by simp
  then show ?thesis by (simp add: sorted_map sort_key_of_le)
qed

text \<open>
  An instance: the operations are appended as install b, install a, update c,
  uninstall gone, and returned in the order of their keys.
\<close>

theorem C7_output_sorted_witness:
  "calculate_operations demo
     (Transaction [pkg ''gone'' [1]]
        [(pkg ''b'' [2, 0], 5), (pkg ''a'' [1, 0], 5), (pkg ''c'' [1], 10)]
        (Some [pkg ''gone'' [1], pkg ''c'' [0]]) None) True False False None =
   Inr [Uninstall (pkg ''gone'' [1]) Infinity None,
        Update (pkg ''c'' [0]) (pkg ''c'' [1]) (Finite 10) None,
        Install (pkg ''a'' [1, 0]) (Finite 5) None,
        Install (pkg ''b'' [2, 0]) (Finite 5) None] \<and>
   sorted_wrt in_order
       [Uninstall (pkg ''gone'' [1]) Infinity None,
        Update (pkg ''c'' [0]) (pkg ''c'' [1]) (Finite 10) None,
        Install (pkg ''a'' [1, 0]) (Finite 5) None,
        Install (pkg ''b'' [2, 0]) (Finite 5) None]"
proof -
  have h: "calculate_operations demo
     (Transaction [pkg ''gone'' [1]]
        [(pkg ''b'' [2, 0], 5), (pkg ''a'' [1, 0], 5), (pkg ''c'' [1], 10)]
        (Some [pkg ''gone'' [1], pkg ''c'' [0]]) None) True False False None =
   Inr [Uninstall (pkg ''gone'' [1]) Infinity None,
        Update (pkg ''c'' [0]) (pkg ''c'' [1]) (Finite 10) None,
        Install (pkg ''a'' [1, 0]) (Finite 5) None,
        Install (pkg ''b'' [2, 0]) (Finite 5) None]"
    by (simp add: planner_defs)
  from C7_output_sorted[OF h] h show ?thesis by blast
qed

subsection \<open>C8: the removal sweep and the classification\<close>

text \<open>
  C8. Let \<open>s1\<close> be the state after the classification loop and \<open>s2\<close> the state after
  the removal sweep run from it. The sweep only appends to the operations; what it
  appends are uninstalls of packages whose names are not in the result; every
  operation of the classification is on a name in the result, and an update there
  goes from and to the same name. So no name is the target of both an uninstall of
  the sweep and an operation of the classification. Unique names are not needed.
\<close>

theorem C8_sweep_disjoint_from_classification:
  assumes "s1 = classification cs self skip_directory extras extra_packages"
    and "s2 = removal_sweep cs self s1"
  shows "take (length (operations s1)) (operations s2) = operations s1 \<and>
         (\<forall>u \<in> set (drop (length (operations s1)) (operations s2)).
            is_Uninstall u \<and> name (operation_package u) \<notin> result_names self) \<and>
         (\<forall>c \<in> set (operations s1). name (operation_package c) \<in> result_names self) \<and>
         (\<forall>ip rp q r. Update ip rp q r \<in> set (operations s1) \<longrightarrow> name ip = name rp) \<and>
         (\<forall>u \<in> set (drop (length (operations s1)) (operations s2)). \<forall>c \<in> set (operations s1).
            name (operation_package u) \<noteq> name (operation_package c))"
proof -
  have app: "operations s2 = operations s1 @ concat (map (dropped cs self) (current_packages self))"
    using assms(2) by (simp add: operations_removal_sweep)
  have u: "is_Uninstall u \<and> name (operation_package u) \<notin> result_names self"
    if "u \<in> set (drop (length (operations s1)) (operations s2))" for u
    using that dropped_cases[of u cs self] by (auto simp: app)
  have c: "name (operation_package c) \<in> result_names self" if "c \<in> set (operations s1)" for c
    using that classified_names unfolding assms(1) by blast
  have up: "name ip = name rp" if "Update ip rp q r \<in> set (operations s1)" for ip rp q r
    using that classified_update_source unfolding assms(1) by blast
  have pre: "take (length (operations s1)) (operations s2) = operations s1"
    by (simp add: app)
  from pre u c up show ?thesis by metis
qed

text \<open>
  An instance: package a is updated by the classification and the dropped package is
  uninstalled by the sweep.
\<close>

theorem C8_sweep_disjoint_from_classification_witness:
  "operations (classification demo
      (Transaction [pkg ''gone'' [1], pkg ''a'' [1]] [(pkg ''a'' [2], 0)]
         (Some [pkg ''gone'' [1], pkg ''a'' [1]]) None) False None {}) =
     [Update (pkg ''a'' [1]) (pkg ''a'' [2]) (Finite 0) None] \<and>
   operations (removal_sweep demo
      (Transaction [pkg ''gone'' [1], pkg ''a'' [1]] [(pkg ''a'' [2], 0)]
         (Some [pkg ''gone'' [1], pkg ''a'' [1]]) None)
      (classification demo
         (Transaction [pkg ''gone'' [1], pkg ''a'' [1]] [(pkg ''a'' [2], 0)]
            (Some [pkg ''gone'' [1], pkg ''a'' [1]]) None) False None {})) =
     [Update (pkg ''a'' [1]) (pkg ''a'' [2]) (Finite 0) None,
      Uninstall (pkg ''gone'' [1]) Infinity None] \<and>
   name (operation_package (Uninstall (pkg ''gone'' [1]) Infinity None)) \<noteq>
   name (operation_package (Update (pkg ''a'' [1]) (pkg ''a'' [2]) (Finite 0) None))"
proof -
  let ?T = "Transaction [pkg ''gone'' [1], pkg ''a'' [1]] [(pkg ''a'' [2], 0)]
         (Some [pkg ''gone'' [1], pkg ''a'' [1]]) None"
  have h1: "operations (classification demo ?T False None {}) =
     [Update (pkg ''a'' [1]) (pkg ''a'' [2]) (Finite 0) None]"
    by (simp add: planner_defs)
  have h2: "operations (removal_sweep demo ?T (classification demo ?T False None {})) =
     [Update (pkg ''a'' [1]) (pkg ''a'' [2]) (Finite 0) None,
      Uninstall (pkg ''gone'' [1]) Infinity None]"
    by (simp add: planner_defs)
  from C8_sweep_disjoint_from_classification[OF refl refl, of demo ?T False None "{}"]
  have "\<forall>u \<in> set (drop (length (operations (classification demo ?T False None {})))
           (operations (removal_sweep demo ?T (classification demo ?T False None {})))).
          \<forall>c \<in> set (operations (classification demo ?T False None {})).
            name (operation_package u) \<noteq> name (operation_package c)"
    by blast
  then have "name (operation_package (Uninstall (pkg ''gone'' [1]) Infinity None)) \<noteq>
     name (operation_package (Update (pkg ''a'' [1]) (pkg ''a'' [2]) (Finite 0) None))"
    unfolding h1 h2 by simp
  with h1 h2 show ?thesis by simp
qed

subsection \<open>C9: uninstalls without \<^verbatim>\<open>with_uninstalls\<close>\<close>

text \<open>
  C9. \<^verbatim>\<open>with_uninstalls=False\<close> does not keep uninstalls out of the output: whenever a
  result package is an unsolicited extra (extras given, the package optional and not in
  the closure) and has an installed match, the output holds the uninstall of that
  installed package, emitted by the classification before the flag is read. The
  instance after the theorem is such an input.
\<close>

theorem C9_uninstall_without_with_uninstalls:
  assumes "extra_package_names cs self extras = Inr extra_packages"
    and "(rp, pr) \<in> set (result_packages self)"
    and "is_unsolicited_extra extras extra_packages rp"
    and "installed_match self rp = Some ip"
  shows "\<exists>ops. calculate_operations cs self False synchronize skip_directory extras = Inr ops \<and>
           Uninstall ip (uninstall_priority cs) None \<in> set ops \<and>
           (\<exists>op \<in> set ops. is_Uninstall op)"
proof -
  from operations_member[OF assms(1,2), of False synchronize skip_directory] assms(3,4)
  obtain ops where
    calc: "calculate_operations cs self False synchronize skip_directory extras = Inr ops"
    and mem: "Uninstall ip (uninstall_priority cs) None \<in> set ops"
    by (auto simp: classified_def)
  have "is_Uninstall (Uninstall ip (uninstall_priority cs) None)" by simp
  with mem have "\<exists>op \<in> set ops. is_Uninstall op" by blast
  with calc mem show ?thesis by blast
qed

theorem C9_uninstall_without_with_uninstalls_witness:
  "calculate_operations demo
     (Transaction [] [((pkg ''docs'' [1])\<lparr>optional := True\<rparr>, 0)] (Some [pkg ''docs'' [1]])
        (Some ((pkg ''app'' [1])\<lparr>package_extras := [(''doc'', [Dependency ''docs''])]\<rparr>)))
     False False False (Some {''test''}) = Inr [Uninstall (pkg ''docs'' [1]) Infinity None] \<and>
   (\<exists>ops. calculate_operations demo
     (Transaction [] [((pkg ''docs'' [1])\<lparr>optional := True\<rparr>, 0)] (Some [pkg ''docs'' [1]])
        (Some ((pkg ''app'' [1])\<lparr>package_extras := [(''doc'', [Dependency ''docs''])]\<rparr>)))
     False False False (Some {''test''}) = Inr ops \<and> (\<exists>op \<in> set ops. is_Uninstall op))"
proof -
  let ?T = "Transaction [] [((pkg ''docs'' [1])\<lparr>optional := True\<rparr>, 0)] (Some [pkg ''docs'' [1]])
        (Some ((pkg ''app'' [1])\<lparr>package_extras := [(''doc'', [Dependency ''docs''])]\<rparr>))"
  have h1: "extra_package_names demo ?T (Some {''test''}) = Inr {}"
    by (simp add: planner_defs)
  have h2: "((pkg ''docs'' [1])\<lparr>optional := True\<rparr>, 0) \<in> set (result_packages ?T)"
    by (simp add: Transaction_def)
  have h3: "is_unsolicited_extra (Some {''test''}) {} ((pkg ''docs'' [1])\<lparr>optional := True\<rparr>)"
    by (simp add: is_unsolicited_extra_def pkg_def)
  have h4: "installed_match ?T ((pkg ''docs'' [1])\<lparr>optional := True\<rparr>) = Some (pkg ''docs'' [1])"
    by (simp add: installed_match_def Transaction_def pkg_def)
  have c: "calculate_operations demo ?T False False False (Some {''test''}) =
             Inr [Uninstall (pkg ''docs'' [1]) Infinity None]"
    by (simp add: planner_defs)
  from C9_uninstall_without_with_uninstalls[OF h1 h2 h3 h4, of False False]
  have "\<exists>ops. calculate_operations demo ?T False False False (Some {''test''}) = Inr ops \<and>
          (\<exists>op \<in> set ops. is_Uninstall op)"
    by blast
  with c show ?thesis by blast
qed

subsection \<open>C10: the current packages without \<^verbatim>\<open>with_uninstalls\<close>\<close>

text \<open>
  C10. With \<^verbatim>\<open>with_uninstalls=False\<close> the result does not depend on the current
  packages: two transactions built from the same result, installed and root packages
  give the same value for the same flags and extras.
\<close>

theorem C10_current_unused_without_uninstalls:
  "calculate_operations cs (Transaction current1 result installed root)
     False synchronize skip_directory extras =
   calculate_operations cs (Transaction current2 result installed root)
     False synchronize skip_directory extras"
proof -
  have "classify cs (Transaction current1 result installed root) skip_directory extras =
        classify cs (Transaction current2 result installed root) skip_directory extras"
    by (intro ext) (simp add: classify_def Transaction_def)
  then have "classification cs (Transaction current1 result installed root) skip_directory extras =
             classification cs (Transaction current2 result installed root) skip_directory extras"
    by (intro ext) (simp add: classification_def Transaction_def)
  moreover have "extra_package_names cs (Transaction current1 result installed root) extras =
                 extra_package_names cs (Transaction current2 result installed root) extras"
    by (simp add: extra_package_names_def Transaction_def split: option.splits)
  ultimately show ?thesis by (simp add: calculate_operations_def split: sum.splits)
qed

end
